theory Spec2Isabelle
  imports Complex_Main
begin

section \<open>Data model\<close>

text \<open>
  The editor works on JavaScript numbers. They are modelled as mathematical reals, so
  every statement below is about the arithmetic the code writes down, without rounding.
  The zoom level is a positive number throughout (the application keeps it between 10
  and 500); where a definition divides by it, the theorems assume it positive.
\<close>

text \<open>The interface \<open>Subtitle\<close>: fields \<open>id\<close>, \<open>start\<close>, \<open>end\<close>, \<open>text\<close>.\<close>

record subtitle =
  sub_id :: string
  sub_start :: real
  sub_end :: real
  sub_text :: string

datatype drag_mode = DragNone | Scrub | MoveSub | ResizeLeft | ResizeRight

datatype hit_type = HitNone | HitBody | HitLeft | HitRight

datatype js_error = TypeError

text \<open>
  The mutable cell \<open>stateRef.current\<close> of the waveform editor, together with the part of
  its surroundings that the pointer handlers read or write: the selection owned by the
  parent (\<open>selectedSubId\<close>, written through \<open>onSelectSub\<close>), whether the canvas and
  video references are set, the canvas width, and the video element's time and paused
  flag.
\<close>

record editor =
  subtitles :: "subtitle list"
  zoomLevel :: real
  isDragging :: bool
  dragMode :: drag_mode
  dragTargetId :: "string option"
  dragStartX :: real
  dragStartTime :: real
  dragOriginalStart :: real
  dragOriginalEnd :: real
  isPlaying :: bool
  selectedSubId :: "string option"
  hasCanvas :: bool
  hasVideo :: bool
  canvasWidth :: real
  videoCurrentTime :: real
  videoPaused :: bool

text \<open>JavaScript truthiness of a \<open>string | null\<close>: null and the empty string are falsy.\<close>

definition truthy :: "string option \<Rightarrow> bool" where
  "truthy v = (case v of None \<Rightarrow> False | Some s \<Rightarrow> s \<noteq> [])"

section \<open>Time/pixel mapper\<close>

definition xToTime :: "real \<Rightarrow> real \<Rightarrow> real \<Rightarrow> real \<Rightarrow> real" where
  "xToTime x centerTime width zoom =
     (let centerX = width / 2; diffX = x - centerX in centerTime + diffX / zoom)"

definition timeToX :: "real \<Rightarrow> real \<Rightarrow> real \<Rightarrow> real \<Rightarrow> real" where
  "timeToX time centerTime width zoom =
     (let centerX = width / 2; diffTime = time - centerTime in centerX + diffTime * zoom)"

section \<open>Pointer handlers\<close>

text \<open>
  The hit-test loop of \<open>handlePointerDown\<close>. The source walks the captions from the last
  index down to 0; the function walks its list argument from the head, and the handler
  passes the reversed caption list.
\<close>

fun hitTest :: "real \<Rightarrow> real \<Rightarrow> string option \<Rightarrow> subtitle list \<Rightarrow> string option \<times> hit_type" where
  "hitTest timeAtCursor handleTimeWidth sel [] = (None, HitNone)"
| "hitTest timeAtCursor handleTimeWidth sel (sub # rest) =
     (if timeAtCursor \<ge> sub_start sub - handleTimeWidth \<and>
         timeAtCursor \<le> sub_end sub + handleTimeWidth
      then (if Some (sub_id sub) = sel \<and> \<bar>timeAtCursor - sub_start sub\<bar> < handleTimeWidth
              then (Some (sub_id sub), HitLeft)
            else if Some (sub_id sub) = sel \<and> \<bar>timeAtCursor - sub_end sub\<bar> < handleTimeWidth
              then (Some (sub_id sub), HitRight)
            else if timeAtCursor \<ge> sub_start sub \<and> timeAtCursor \<le> sub_end sub
              then (Some (sub_id sub), HitBody)
            else hitTest timeAtCursor handleTimeWidth sel rest)
      else hitTest timeAtCursor handleTimeWidth sel rest)"

text \<open>
  \<open>handlePointerDown\<close>; the argument \<open>x\<close> is \<open>e.clientX - rect.left\<close>. The lookup
  \<open>subs.find(...)!\<close> is followed by a field read, which throws a TypeError when nothing
  is found.
\<close>

definition handlePointerDown :: "real \<Rightarrow> editor \<Rightarrow> js_error + editor" where
  "handlePointerDown x s =
     (if \<not> hasCanvas s \<or> \<not> hasVideo s then Inr s
      else
        let width = canvasWidth s;
            zoom = zoomLevel s;
            currentTime = videoCurrentTime s;
            timeAtCursor = xToTime x currentTime width zoom;
            subs = subtitles s;
            handleHitWidth = 10;
            handleTimeWidth = handleHitWidth / zoom;
            (hitSubId, hitType) =
               hitTest timeAtCursor handleTimeWidth (selectedSubId s) (rev subs);
            s1 = s\<lparr>isDragging := True, dragStartX := x, dragStartTime := currentTime\<rparr>
        in if truthy hitSubId \<and> hitType \<noteq> HitNone
           then (case find (\<lambda>c. Some (sub_id c) = hitSubId) subs of
                   None \<Rightarrow> Inl TypeError
                 | Some sub \<Rightarrow>
                     Inr (s1\<lparr>dragTargetId := hitSubId,
                             dragOriginalStart := sub_start sub,
                             dragOriginalEnd := sub_end sub,
                             selectedSubId := hitSubId,
                             dragMode := (case hitType of
                                            HitBody \<Rightarrow> MoveSub
                                          | HitLeft \<Rightarrow> ResizeLeft
                                          | HitRight \<Rightarrow> ResizeRight
                                          | HitNone \<Rightarrow> dragMode s1),
                             videoPaused := True\<rparr>))
           else Inr (s1\<lparr>dragMode := Scrub,
                         selectedSubId :=
                           (if truthy (selectedSubId s) then None else selectedSubId s),
                         isPlaying := \<not> videoPaused s,
                         videoPaused := True\<rparr>))"

text \<open>The function mapped over the captions by \<open>handlePointerMove\<close>.\<close>

definition dragSub ::
  "drag_mode \<Rightarrow> string option \<Rightarrow> real \<Rightarrow> real \<Rightarrow> real \<Rightarrow> subtitle \<Rightarrow> subtitle" where
  "dragSub mode target originalStart originalEnd dt sub =
     (if Some (sub_id sub) \<noteq> target then sub
      else
        let (newStart, newEnd) =
              (if mode = MoveSub then
                 (let ns = max 0 (originalStart + dt)
                  in (ns, max (ns + 0.1) (originalEnd + dt)))
               else if mode = ResizeLeft then
                 (min (max 0 (originalStart + dt)) (originalEnd - 0.2), sub_end sub)
               else if mode = ResizeRight then
                 (sub_start sub, max (originalStart + 0.2) (originalEnd + dt))
               else (sub_start sub, sub_end sub))
        in sub\<lparr>sub_start := newStart, sub_end := newEnd\<rparr>)"

definition handlePointerMove :: "real \<Rightarrow> editor \<Rightarrow> editor" where
  "handlePointerMove x s =
     (if \<not> isDragging s \<or> \<not> hasVideo s \<or> \<not> hasCanvas s then s
      else
        let zoom = zoomLevel s;
            dx = x - dragStartX s;
            dt = dx / zoom
        in if dragMode s = Scrub
           then s\<lparr>videoCurrentTime := max 0 (dragStartTime s - dt)\<rparr>
           else if truthy (dragTargetId s)
           then s\<lparr>subtitles :=
                     map (dragSub (dragMode s) (dragTargetId s)
                            (dragOriginalStart s) (dragOriginalEnd s) dt) (subtitles s)\<rparr>
           else s)"

definition handlePointerUp :: "editor \<Rightarrow> editor" where
  "handlePointerUp s =
     (let s1 = (if dragMode s = Scrub \<and> isPlaying s \<and> hasVideo s
                then s\<lparr>videoPaused := False\<rparr> else s)
      in s1\<lparr>isDragging := False, dragMode := DragNone, dragTargetId := None\<rparr>)"

text \<open>Pointer events as the canvas delivers them, and a run of the handlers over them.\<close>

datatype pointer_event = PointerDown real | PointerMove real | PointerUp

fun dispatch :: "pointer_event \<Rightarrow> editor \<Rightarrow> js_error + editor" where
  "dispatch (PointerDown x) s = handlePointerDown x s"
| "dispatch (PointerMove x) s = Inr (handlePointerMove x s)"
| "dispatch PointerUp s = Inr (handlePointerUp s)"

fun runEvents :: "pointer_event list \<Rightarrow> editor \<Rightarrow> js_error + editor" where
  "runEvents [] s = Inr s"
| "runEvents (e # es) s =
     (case dispatch e s of Inl err \<Rightarrow> Inl err | Inr s' \<Rightarrow> runEvents es s')"

text \<open>
  The initial value of \<open>stateRef.current\<close> for given props, with a mounted canvas of the
  given width and a paused video at the given time.
\<close>

definition initialEditor ::
  "subtitle list \<Rightarrow> real \<Rightarrow> string option \<Rightarrow> real \<Rightarrow> real \<Rightarrow> editor" where
  "initialEditor subs zoom sel width time =
     \<lparr>subtitles = subs, zoomLevel = zoom, isDragging = False, dragMode = DragNone,
      dragTargetId = None, dragStartX = 0, dragStartTime = 0, dragOriginalStart = 0,
      dragOriginalEnd = 0, isPlaying = False, selectedSubId = sel, hasCanvas = True,
      hasVideo = True, canvasWidth = width, videoCurrentTime = time, videoPaused = True\<rparr>"

text \<open>Concrete editors used to exercise the handlers.\<close>

definition captionA :: subtitle where
  "captionA = \<lparr>sub_id = ''a'', sub_start = 10, sub_end = 12, sub_text = ''hi''\<rparr>"

definition captionB :: subtitle where
  "captionB = \<lparr>sub_id = ''b'', sub_start = 20, sub_end = 21, sub_text = ''there''\<rparr>"

definition dragExample :: "drag_mode \<Rightarrow> real \<Rightarrow> editor" where
  "dragExample mode x0 =
     (initialEditor [captionA, captionB] 50 (Some ''a'') 800 11)
       \<lparr>isDragging := True, dragMode := mode, dragTargetId := Some ''a'', dragStartX := x0,
        dragStartTime := 11, dragOriginalStart := 10, dragOriginalEnd := 12\<rparr>"

definition freshCaption :: subtitle where
  "freshCaption = \<lparr>sub_id = ''a'', sub_start = 0.5, sub_end = 2.5, sub_text = ''New Subtitle''\<rparr>"


text \<open>
  Predicates used to state what the hit test does: the pointer time lies in the body of a
  caption, or within the handle margin of one of its edges.
\<close>

definition inBody :: "real \<Rightarrow> subtitle \<Rightarrow> bool" where
  "inBody t c = (sub_start c \<le> t \<and> t \<le> sub_end c)"

definition inExpanded :: "real \<Rightarrow> real \<Rightarrow> subtitle \<Rightarrow> bool" where
  "inExpanded t margin c = (sub_start c - margin \<le> t \<and> t \<le> sub_end c + margin)"

definition onHandle :: "real \<Rightarrow> real \<Rightarrow> subtitle \<Rightarrow> bool" where
  "onHandle t margin c =
     (inExpanded t margin c \<and> (\<bar>t - sub_start c\<bar> < margin \<or> \<bar>t - sub_end c\<bar> < margin))"

section \<open>Waveform rasterizer\<close>

text \<open>
  A read of \<open>channelData[j]\<close>: outside the array JavaScript yields \<open>undefined\<close>, which
  compares false with every number.
\<close>

definition sampleAt :: "real list \<Rightarrow> int \<Rightarrow> real option" where
  "sampleAt channelData j =
     (if 0 \<le> j \<and> j < int (length channelData) then Some (channelData ! nat j) else None)"

text \<open>
  The peak-sampling loop \<open>for (j = safeStart; j < safeEnd; j += stride)\<close> with its three
  running variables. The call site passes \<open>stride = max 1 ...\<close>; the loop is only
  entered for a positive stride.
\<close>

function scanPeak ::
  "real list \<Rightarrow> int \<Rightarrow> int \<Rightarrow> int \<Rightarrow> real \<times> real \<times> bool \<Rightarrow> real \<times> real \<times> bool" where
  "scanPeak channelData safeEnd stride j (mn, mx, hasData) =
     (if j < safeEnd \<and> 1 \<le> stride
      then (let val = sampleAt channelData j;
                mn' = (case val of Some v \<Rightarrow> if v < mn then v else mn | None \<Rightarrow> mn);
                mx' = (case val of Some v \<Rightarrow> if v > mx then v else mx | None \<Rightarrow> mx)
            in scanPeak channelData safeEnd stride (j + stride) (mn', mx', True))
      else (mn, mx, hasData))"
  by pat_completeness auto
termination
  by (relation "measure (\<lambda>(channelData, safeEnd, stride, j, acc). nat (safeEnd - j))") auto

text \<open>
  One pass of the bucket loop of \<open>draw\<close> for bucket index \<open>i\<close>: the bucket is skipped
  (\<open>continue\<close>), ends the loop (\<open>break\<close>), or is sampled. A sampled bucket carries the
  minimum and maximum the peak loop found and the rectangle \<open>(x, y, w, h)\<close> passed to
  \<open>fillRect\<close>, if one is drawn.
\<close>

datatype bucket_outcome =
  BucketSkip
| BucketBreak
| BucketPeak real real "(int \<times> int \<times> int \<times> int) option"

definition drawBucket ::
  "real \<Rightarrow> real list \<Rightarrow> real \<Rightarrow> real \<Rightarrow> real \<Rightarrow> real \<Rightarrow> int \<Rightarrow> bucket_outcome" where
  "drawBucket sampleRate channelData currentTime width height zoom i =
     (let ampHeight = height / 2;
          samplesPerPixel = sampleRate / zoom;
          step = \<lceil>samplesPerPixel\<rceil>;
          startSample = i * step;
          endSample = startSample + step
      in if endSample < 0 \<or> startSample \<ge> int (length channelData) then BucketSkip
         else
           let safeStart = max 0 startSample;
               safeEnd = min (int (length channelData)) endSample;
               timeStart = real_of_int startSample / sampleRate;
               timeEnd = real_of_int endSample / sampleRate;
               xStart = timeToX timeStart currentTime width zoom;
               xEnd = timeToX timeEnd currentTime width zoom;
               drawX = \<lfloor>xStart\<rfloor>;
               drawW = max 1 (\<lceil>xEnd\<rceil> - drawX)
           in if real_of_int drawX > width then BucketBreak
              else if drawX + drawW < 0 then BucketSkip
              else
                let stride = max 1 ((safeEnd - safeStart) div 40);
                    (mn, mx, hasData) = scanPeak channelData safeEnd stride safeStart (1, - 1, False)
                in if hasData \<and> mx \<ge> mn
                   then (if mx - mn < 0.005
                         then BucketPeak mn mx (Some (drawX, \<lfloor>ampHeight\<rfloor>, drawW, 1))
                         else
                           let yMin = \<lfloor>ampHeight + mn * ampHeight * 0.9\<rfloor>;
                               yMax = \<lceil>ampHeight + mx * ampHeight * 0.9\<rceil>;
                               h = max 1 (yMax - yMin)
                           in BucketPeak mn mx (Some (drawX, yMin, drawW, h)))
                   else BucketPeak mn mx None)"

text \<open>
  The bucket loop \<open>for (i = startBucketIndex - 1; i <= endBucketIndex + 1; i++)\<close>; the
  result lists every sampled bucket with its index.
\<close>

function bucketLoop ::
  "real \<Rightarrow> real list \<Rightarrow> real \<Rightarrow> real \<Rightarrow> real \<Rightarrow> real \<Rightarrow> int \<Rightarrow> int
     \<Rightarrow> (int \<times> bucket_outcome) list" where
  "bucketLoop sampleRate channelData currentTime width height zoom lastIndex i =
     (if i \<le> lastIndex
      then (case drawBucket sampleRate channelData currentTime width height zoom i of
              BucketBreak \<Rightarrow> []
            | BucketSkip \<Rightarrow>
                bucketLoop sampleRate channelData currentTime width height zoom lastIndex (i + 1)
            | BucketPeak mn mx r \<Rightarrow>
                (i, BucketPeak mn mx r)
                  # bucketLoop sampleRate channelData currentTime width height zoom lastIndex (i + 1))
      else [])"
  by pat_completeness auto
termination
  by (relation "measure (\<lambda>(sampleRate, channelData, currentTime, width, height, zoom, lastIndex, i).
        nat (lastIndex + 1 - i))") auto

text \<open>The waveform section of \<open>draw\<close> for a decoded audio buffer.\<close>

definition drawWaveform ::
  "real \<Rightarrow> real list \<Rightarrow> real \<Rightarrow> real \<Rightarrow> real \<Rightarrow> real \<Rightarrow> (int \<times> bucket_outcome) list" where
  "drawWaveform sampleRate channelData currentTime width height zoom =
     (let samplesPerPixel = sampleRate / zoom;
          step = \<lceil>samplesPerPixel\<rceil>;
          startTimeAtLeft = xToTime 0 currentTime width zoom;
          endTimeAtRight = xToTime width currentTime width zoom;
          startBucketIndex = \<lfloor>(startTimeAtLeft * sampleRate) / real_of_int step\<rfloor>;
          endBucketIndex = \<lceil>(endTimeAtRight * sampleRate) / real_of_int step\<rceil>
      in bucketLoop sampleRate channelData currentTime width height zoom
           (endBucketIndex + 1) (startBucketIndex - 1))"

text \<open>A short sample buffer for the examples.\<close>

definition sampleData :: "real list" where
  "sampleData = [0.5, - 0.5, 0.25, 0.1, 0.9, - 0.3, 0, 0]"

text \<open>
  What a sampled bucket reports, written without the playback time: the peak loop runs
  over the clamped sample range of the bucket, and the vertical extent of the bar is
  computed from the peaks and the canvas height.
\<close>

definition bucketPeaks :: "real \<Rightarrow> real list \<Rightarrow> real \<Rightarrow> int \<Rightarrow> real \<times> real \<times> bool" where
  "bucketPeaks sampleRate channelData zoom i =
     (let step = \<lceil>sampleRate / zoom\<rceil>;
          safeStart = max 0 (i * step);
          safeEnd = min (int (length channelData)) (i * step + step)
      in scanPeak channelData safeEnd (max 1 ((safeEnd - safeStart) div 40)) safeStart
           (1, - 1, False))"

section \<open>Export compositor and controller\<close>

record subtitle_style =
  fontFamily :: string
  fontSize :: real
  strokeWidth :: real
  fontWeight :: string
  color :: string

text \<open>
  Calls and assignments on the 2D context of the export canvas, in the order the frame
  callback makes them.
\<close>

datatype canvas_op =
  DrawImage real real real real
| SetFont string int string
| SetAttr string string
| SetNum string real
| StrokeText string real real
| FillText string real real

record frame_result =
  frameOps :: "canvas_op list"
  lineWidthAfter :: real
  recorderStopped :: bool
  exportProgress :: "real option"
  scheduledNext :: bool

text \<open>
  The frame callback \<open>renderFrame\<close>. \<open>lineWidth0\<close> is the line width the context holds
  before the frame. An assignment to \<open>ctx.lineWidth\<close> of a value that is not positive is
  ignored by the canvas, so the stroke test reads the width the context keeps.
\<close>

definition renderFrame ::
  "bool \<Rightarrow> bool \<Rightarrow> real \<Rightarrow> real \<Rightarrow> real \<Rightarrow> real \<Rightarrow> subtitle_style \<Rightarrow> real
     \<Rightarrow> subtitle list \<Rightarrow> frame_result" where
  "renderFrame videoEnded videoIsPaused currentTime duration canvasW canvasH currentStyle
     lineWidth0 subs =
     (if (videoEnded \<or> videoIsPaused) \<and> videoEnded
      then \<lparr>frameOps = [], lineWidthAfter = lineWidth0, recorderStopped = True,
            exportProgress = None, scheduledNext = False\<rparr>
      else
        let activeSub = find (\<lambda>s. currentTime \<ge> sub_start s \<and> currentTime \<le> sub_end s) subs;
            image = [DrawImage 0 0 canvasW canvasH]
        in (case activeSub of
              None \<Rightarrow>
                \<lparr>frameOps = image, lineWidthAfter = lineWidth0, recorderStopped = False,
                 exportProgress = Some ((currentTime / duration) * 100), scheduledNext = True\<rparr>
            | Some sub \<Rightarrow>
                let fontSizePx = \<lfloor>canvasH * (fontSize currentStyle / 100)\<rfloor>;
                    strokeRatio = strokeWidth currentStyle / 100;
                    requested = real_of_int fontSizePx * strokeRatio;
                    lineWidth = (if requested > 0 then requested else lineWidth0);
                    x = canvasW / 2;
                    y = canvasH - (real_of_int fontSizePx * 1.5);
                    setup = [SetFont (fontWeight currentStyle) fontSizePx (fontFamily currentStyle),
                             SetAttr ''textAlign'' ''center'',
                             SetAttr ''textBaseline'' ''bottom'',
                             SetAttr ''lineJoin'' ''round'',
                             SetNum ''miterLimit'' 2,
                             SetNum ''lineWidth'' requested];
                    stroke = (if lineWidth > 0
                              then [SetAttr ''strokeStyle'' ''black'', StrokeText (sub_text sub) x y]
                              else []);
                    fill = [SetAttr ''fillStyle'' (color currentStyle), FillText (sub_text sub) x y]
                in \<lparr>frameOps = image @ setup @ stroke @ fill, lineWidthAfter = lineWidth,
                    recorderStopped = False,
                    exportProgress = Some ((currentTime / duration) * 100),
                    scheduledNext = True\<rparr>))"

text \<open>The text of a text-drawing call, if the call is one.\<close>

fun drawnText :: "canvas_op \<Rightarrow> string option" where
  "drawnText (StrokeText txt x y) = Some txt"
| "drawnText (FillText txt x y) = Some txt"
| "drawnText other = None"

datatype render_status = Idle | Rendering | Completed

text \<open>
  The export controller's state as far as \<open>startRendering\<close> touches it, up to the start
  of the recorder: the React state \<open>renderStatus\<close>, the video element, the alerts shown,
  and the MIME type and file extension of the recorder once it is started.
\<close>

record exporter =
  renderStatus :: render_status
  exportVideoPresent :: bool
  exportCanvasPresent :: bool
  videoSrcPresent :: bool
  contextPresent :: bool
  mutePreview :: bool
  previousVolume :: real
  exportVideoTime :: real
  exportVideoVolume :: real
  alerts :: "string list"
  recorderMimeType :: "string option"
  fileExtension :: "string option"

definition mimeTypes :: "string list" where
  "mimeTypes =
     [''video/mp4;codecs=avc1.4d002a'',
      ''video/mp4;codecs=avc1.42E01E'',
      ''video/mp4'',
      ''video/webm;codecs=h264'',
      ''video/webm;codecs=vp9'',
      ''video/webm'']"

text \<open>
  The probing loop: \<open>selectedMimeType\<close> starts as the empty string and takes the first
  type that \<open>MediaRecorder.isTypeSupported\<close> accepts.
\<close>

fun selectMimeType :: "(string \<Rightarrow> bool) \<Rightarrow> string list \<Rightarrow> string" where
  "selectMimeType isTypeSupported [] = []"
| "selectMimeType isTypeSupported (ty # rest) =
     (if isTypeSupported ty then ty else selectMimeType isTypeSupported rest)"

fun startsWith :: "string \<Rightarrow> string \<Rightarrow> bool" where
  "startsWith s [] = True"
| "startsWith [] (p # ps) = False"
| "startsWith (c # cs) (p # ps) = (c = p \<and> startsWith cs ps)"

fun includesStr :: "string \<Rightarrow> string \<Rightarrow> bool" where
  "includesStr [] p = startsWith [] p"
| "includesStr (c # cs) p = (startsWith (c # cs) p \<or> includesStr cs p)"

definition unsupportedMessage :: string where
  "unsupportedMessage =
     ''Your browser does not support video recording formats required for this feature.''"

definition startRendering :: "(string \<Rightarrow> bool) \<Rightarrow> exporter \<Rightarrow> exporter" where
  "startRendering isTypeSupported st =
     (if \<not> exportVideoPresent st \<or> \<not> exportCanvasPresent st \<or> \<not> videoSrcPresent st then st
      else
        let st1 = st\<lparr>renderStatus := Rendering,
                     exportVideoTime := 0,
                     exportVideoVolume := (if mutePreview st then 0 else previousVolume st)\<rparr>
        in if \<not> contextPresent st then st1
           else
             let selectedMimeType = selectMimeType isTypeSupported mimeTypes
             in if selectedMimeType = []
                then st1\<lparr>alerts := alerts st1 @ [unsupportedMessage], renderStatus := Idle\<rparr>
                else st1\<lparr>recorderMimeType := Some selectedMimeType,
                         fileExtension :=
                           Some (if includesStr selectedMimeType ''mp4'' then ''mp4'' else ''webm'')\<rparr>)"

text \<open>The application's default style, a caption and an export state for the examples.\<close>

definition defaultStyle :: subtitle_style where
  "defaultStyle = \<lparr>fontFamily = ''Arial'', fontSize = 5, strokeWidth = 15,
                    fontWeight = ''bold'', color = ''#FFFFFF''\<rparr>"

definition exportCaption :: subtitle where
  "exportCaption = \<lparr>sub_id = ''x'', sub_start = 2, sub_end = 4, sub_text = ''Hello''\<rparr>"

definition exporter0 :: exporter where
  "exporter0 = \<lparr>renderStatus = Idle, exportVideoPresent = True, exportCanvasPresent = True,
                videoSrcPresent = True, contextPresent = True, mutePreview = True,
                previousVolume = 1, exportVideoTime = 7, exportVideoVolume = 1, alerts = [],
                recorderMimeType = None, fileExtension = None\<rparr>"

section \<open>Caption file\<close>



























section \<open>Mapper round trip\<close>

lemma xToTime_timeToX: "zoom \<noteq> 0 \<Longrightarrow> xToTime (timeToX t c w zoom) c w zoom = t"
  by (simp add: xToTime_def timeToX_def)

text \<open>
  C5: for every time \<open>t\<close> and every viewport with positive zoom, mapping \<open>t\<close> to a pixel
  and back returns \<open>t\<close>.
\<close>

theorem mapper_round_trip:
  "0 < zoom \<Longrightarrow> xToTime (timeToX t centerTime width zoom) centerTime width zoom = t"
  by (simp add: xToTime_def timeToX_def)

theorem mapper_round_trip_witness:
  "(0::real) < 50 \<and> xToTime (timeToX 11 3 800 50) 3 800 50 = 11"
  using mapper_round_trip [of 50 11 3 800] by simp

section \<open>Drag updates\<close>

lemma dragSub_other: "Some (sub_id sub) \<noteq> target \<Longrightarrow> dragSub mode target os oe dt sub = sub"
  by (simp add: dragSub_def)

lemma dragSub_id: "sub_id (dragSub mode target os oe dt sub) = sub_id sub"
  by (simp add: dragSub_def split: prod.splits)

lemma dragSub_text: "sub_text (dragSub mode target os oe dt sub) = sub_text sub"
  by (simp add: dragSub_def split: prod.splits)

lemma handlePointerMove_drag:
  assumes "isDragging s" "hasVideo s" "hasCanvas s" "dragMode s \<noteq> Scrub"
    and "dragTargetId s = Some tid" "tid \<noteq> []"
  shows "subtitles (handlePointerMove x s) =
           map (dragSub (dragMode s) (Some tid) (dragOriginalStart s) (dragOriginalEnd s)
                  ((x - dragStartX s) / zoomLevel s)) (subtitles s)"
  using assms by (simp add: handlePointerMove_def truthy_def Let_def)

text \<open>
  C1: in a move drag with snapshot \<open>(dragOriginalStart, dragOriginalEnd)\<close>, a pointer
  move to \<open>x\<close> gives every caption with the target id the start
  \<open>max 0 (originalStart + dt)\<close> and the end \<open>max (newStart + 0.1) (originalEnd + dt)\<close>,
  where \<open>dt = (x - dragStartX) / zoom\<close>, and leaves the other captions as they are.
  In the scenario, a caption from 10 to 12 at zoom 50 is pressed at the pixel of time 11,
  dragged by 100 pixels and released: it then runs from 12 to 14, for every canvas width,
  playback time and prior selection.
\<close>

theorem move_drag_update:
  assumes "isDragging s" "hasVideo s" "hasCanvas s" "0 < zoomLevel s"
    and "dragMode s = MoveSub" "dragTargetId s = Some tid" "tid \<noteq> []"
    and "dt = (x - dragStartX s) / zoomLevel s"
    and "newStart = max 0 (dragOriginalStart s + dt)"
    and "newEnd = max (newStart + 0.1) (dragOriginalEnd s + dt)"
    and "x0 = timeToX 11 time width 50"
  shows "subtitles (handlePointerMove x s) =
           map (\<lambda>sub. if sub_id sub = tid
                       then sub\<lparr>sub_start := newStart, sub_end := newEnd\<rparr> else sub)
             (subtitles s)
         \<and> map_sum id subtitles
             (runEvents [PointerDown x0, PointerMove (x0 + 100), PointerUp]
                (initialEditor [\<lparr>sub_id = ''a'', sub_start = 10, sub_end = 12, sub_text = ''hi''\<rparr>]
                   50 sel width time))
           = Inr [\<lparr>sub_id = ''a'', sub_start = 12, sub_end = 14, sub_text = ''hi''\<rparr>]"
proof
  have "dragMode s \<noteq> Scrub" using assms(5) by simp
  from handlePointerMove_drag [OF assms(1-3) this assms(6,7)]
  show "subtitles (handlePointerMove x s) =
           map (\<lambda>sub. if sub_id sub = tid
                       then sub\<lparr>sub_start := newStart, sub_end := newEnd\<rparr> else sub)
             (subtitles s)"
    using assms(5,8-10) by (simp add: dragSub_def Let_def)
next
  have t: "xToTime x0 time width 50 = 11"
    using assms(11) xToTime_timeToX [of 50 11 time width] by simp
  show "map_sum id subtitles
             (runEvents [PointerDown x0, PointerMove (x0 + 100), PointerUp]
                (initialEditor [\<lparr>sub_id = ''a'', sub_start = 10, sub_end = 12, sub_text = ''hi''\<rparr>]
                   50 sel width time))
           = Inr [\<lparr>sub_id = ''a'', sub_start = 12, sub_end = 14, sub_text = ''hi''\<rparr>]"
    by (simp add: initialEditor_def handlePointerDown_def handlePointerMove_def
        handlePointerUp_def t truthy_def dragSub_def)
qed

theorem move_drag_update_witness:
  "handlePointerDown 400 (initialEditor [captionA, captionB] 50 (Some ''a'') 800 11)
     = Inr (dragExample MoveSub 400)
   \<and> subtitles (handlePointerMove 500 (dragExample MoveSub 400))
     = [captionA\<lparr>sub_start := 12, sub_end := 14\<rparr>, captionB]"
proof
  show "handlePointerDown 400 (initialEditor [captionA, captionB] 50 (Some ''a'') 800 11)
     = Inr (dragExample MoveSub 400)"
    by (simp add: handlePointerDown_def initialEditor_def dragExample_def captionA_def
        captionB_def xToTime_def truthy_def)
next
  have h: "isDragging (dragExample MoveSub 400)" "hasVideo (dragExample MoveSub 400)"
    "hasCanvas (dragExample MoveSub 400)" "0 < zoomLevel (dragExample MoveSub 400)"
    "dragMode (dragExample MoveSub 400) = MoveSub"
    "dragTargetId (dragExample MoveSub 400) = Some ''a''" "''a'' \<noteq> []"
    "(2::real) = (500 - dragStartX (dragExample MoveSub 400)) / zoomLevel (dragExample MoveSub 400)"
    "(12::real) = max 0 (dragOriginalStart (dragExample MoveSub 400) + 2)"
    "(14::real) = max (12 + 0.1) (dragOriginalEnd (dragExample MoveSub 400) + 2)"
    "(400::real) = timeToX 11 11 800 50"
    by (simp_all add: dragExample_def initialEditor_def timeToX_def)
  from move_drag_update [OF h, THEN conjunct1]
  have "subtitles (handlePointerMove 500 (dragExample MoveSub 400)) =
           map (\<lambda>sub. if sub_id sub = ''a''
                       then sub\<lparr>sub_start := 12, sub_end := 14\<rparr> else sub)
             (subtitles (dragExample MoveSub 400))" .
  then show "subtitles (handlePointerMove 500 (dragExample MoveSub 400))
     = [captionA\<lparr>sub_start := 12, sub_end := 14\<rparr>, captionB]"
    by (simp add: dragExample_def initialEditor_def captionA_def captionB_def)
qed

text \<open>
  C2: in a resize drag the moved edge is computed from the snapshot taken at the start of
  the drag and kept 0.2 s away from the snapshot of the opposite edge: resize-left sets
  the start to \<open>min (max 0 (originalStart + dt)) (originalEnd - 0.2)\<close>, resize-right sets
  the end to \<open>max (originalStart + 0.2) (originalEnd + dt)\<close>. In the scenario, the right
  handle of the selected caption from 10 to 12 is pressed at the pixel of time 12 at zoom
  50 and dragged 5 pixels to the left (0.1 s): the end becomes 11.9.
\<close>

theorem resize_drag_update:
  assumes "isDragging s" "hasVideo s" "hasCanvas s" "0 < zoomLevel s"
    and "dragTargetId s = Some tid" "tid \<noteq> []"
    and "dt = (x - dragStartX s) / zoomLevel s"
    and "x0 = timeToX 12 time width 50"
  shows "(dragMode s = ResizeLeft \<longrightarrow>
            subtitles (handlePointerMove x s) =
              map (\<lambda>sub. if sub_id sub = tid
                          then sub\<lparr>sub_start :=
                                 min (max 0 (dragOriginalStart s + dt)) (dragOriginalEnd s - 0.2)\<rparr>
                          else sub) (subtitles s))
         \<and> (dragMode s = ResizeRight \<longrightarrow>
            subtitles (handlePointerMove x s) =
              map (\<lambda>sub. if sub_id sub = tid
                          then sub\<lparr>sub_end :=
                                 max (dragOriginalStart s + 0.2) (dragOriginalEnd s + dt)\<rparr>
                          else sub) (subtitles s))
         \<and> map_sum id subtitles
             (runEvents [PointerDown x0, PointerMove (x0 - 5), PointerUp]
                (initialEditor [\<lparr>sub_id = ''a'', sub_start = 10, sub_end = 12, sub_text = ''hi''\<rparr>]
                   50 (Some ''a'') width time))
           = Inr [\<lparr>sub_id = ''a'', sub_start = 10, sub_end = 11.9, sub_text = ''hi''\<rparr>]"
proof (intro conjI impI)
  assume m: "dragMode s = ResizeLeft"
  then have "dragMode s \<noteq> Scrub" by simp
  from handlePointerMove_drag [OF assms(1-3) this assms(5,6)]
  show "subtitles (handlePointerMove x s) =
              map (\<lambda>sub. if sub_id sub = tid
                          then sub\<lparr>sub_start :=
                                 min (max 0 (dragOriginalStart s + dt)) (dragOriginalEnd s - 0.2)\<rparr>
                          else sub) (subtitles s)"
    using m assms(7) by (simp add: dragSub_def)
next
  assume m: "dragMode s = ResizeRight"
  then have "dragMode s \<noteq> Scrub" by simp
  from handlePointerMove_drag [OF assms(1-3) this assms(5,6)]
  show "subtitles (handlePointerMove x s) =
              map (\<lambda>sub. if sub_id sub = tid
                          then sub\<lparr>sub_end :=
                                 max (dragOriginalStart s + 0.2) (dragOriginalEnd s + dt)\<rparr>
                          else sub) (subtitles s)"
    using m assms(7) by (simp add: dragSub_def)
next
  have t: "xToTime x0 time width 50 = 12"
    using assms(8) xToTime_timeToX [of 50 12 time width] by simp
  show "map_sum id subtitles
             (runEvents [PointerDown x0, PointerMove (x0 - 5), PointerUp]
                (initialEditor [\<lparr>sub_id = ''a'', sub_start = 10, sub_end = 12, sub_text = ''hi''\<rparr>]
                   50 (Some ''a'') width time))
           = Inr [\<lparr>sub_id = ''a'', sub_start = 10, sub_end = 11.9, sub_text = ''hi''\<rparr>]"
    by (simp add: initialEditor_def handlePointerDown_def handlePointerMove_def
        handlePointerUp_def t truthy_def dragSub_def)
qed

theorem resize_drag_update_witness:
  "subtitles (handlePointerMove 445 (dragExample ResizeRight 450))
     = [captionA\<lparr>sub_end := 11.9\<rparr>, captionB]
   \<and> subtitles (handlePointerMove 1000 (dragExample ResizeLeft 350))
     = [captionA\<lparr>sub_start := 11.8\<rparr>, captionB]"
proof
  have h: "isDragging (dragExample ResizeRight 450)" "hasVideo (dragExample ResizeRight 450)"
    "hasCanvas (dragExample ResizeRight 450)" "0 < zoomLevel (dragExample ResizeRight 450)"
    "dragTargetId (dragExample ResizeRight 450) = Some ''a''" "''a'' \<noteq> []"
    "(- 0.1::real) = (445 - dragStartX (dragExample ResizeRight 450))
                       / zoomLevel (dragExample ResizeRight 450)"
    "(450::real) = timeToX 12 11 800 50"
    by (simp_all add: dragExample_def initialEditor_def timeToX_def)
  have m: "dragMode (dragExample ResizeRight 450) = ResizeRight"
    by (simp add: dragExample_def)
  from resize_drag_update [OF h, THEN conjunct2, THEN conjunct1, rule_format, OF m]
  show "subtitles (handlePointerMove 445 (dragExample ResizeRight 450))
     = [captionA\<lparr>sub_end := 11.9\<rparr>, captionB]"
    by (simp add: dragExample_def initialEditor_def captionA_def captionB_def)
next
  have h: "isDragging (dragExample ResizeLeft 350)" "hasVideo (dragExample ResizeLeft 350)"
    "hasCanvas (dragExample ResizeLeft 350)" "0 < zoomLevel (dragExample ResizeLeft 350)"
    "dragTargetId (dragExample ResizeLeft 350) = Some ''a''" "''a'' \<noteq> []"
    "(13::real) = (1000 - dragStartX (dragExample ResizeLeft 350))
                       / zoomLevel (dragExample ResizeLeft 350)"
    "(450::real) = timeToX 12 11 800 50"
    by (simp_all add: dragExample_def initialEditor_def timeToX_def)
  have m: "dragMode (dragExample ResizeLeft 350) = ResizeLeft"
    by (simp add: dragExample_def)
  from resize_drag_update [OF h, THEN conjunct1, rule_format, OF m]
  show "subtitles (handlePointerMove 1000 (dragExample ResizeLeft 350))
     = [captionA\<lparr>sub_start := 11.8\<rparr>, captionB]"
    by (simp add: dragExample_def initialEditor_def captionA_def captionB_def)
qed

text \<open>
  C10: a pointer move changes nothing of the caption list but the start and end of the
  captions that carry the drag target's id: the list keeps its length, every caption
  keeps its id and text, and a caption whose id is not the drag target is returned as it
  was.
\<close>

theorem pointer_move_frame:
  "length (subtitles (handlePointerMove x s)) = length (subtitles s)
   \<and> (\<forall>i < length (subtitles s).
         sub_id (subtitles (handlePointerMove x s) ! i) = sub_id (subtitles s ! i)
       \<and> sub_text (subtitles (handlePointerMove x s) ! i) = sub_text (subtitles s ! i)
       \<and> (Some (sub_id (subtitles s ! i)) \<noteq> dragTargetId s
            \<longrightarrow> subtitles (handlePointerMove x s) ! i = subtitles s ! i))"
  by (simp add: handlePointerMove_def Let_def dragSub_id dragSub_text dragSub_other)

theorem pointer_move_frame_witness:
  "subtitles (handlePointerMove 500 (dragExample MoveSub 400)) ! 1 = captionB
   \<and> sub_id (subtitles (handlePointerMove 500 (dragExample MoveSub 400)) ! 0) = ''a''
   \<and> sub_text (subtitles (handlePointerMove 500 (dragExample MoveSub 400)) ! 0) = ''hi''"
proof -
  have l: "subtitles (dragExample MoveSub 400) = [captionA, captionB]"
    and d: "dragTargetId (dragExample MoveSub 400) = Some ''a''"
    by (simp_all add: dragExample_def initialEditor_def)
  note f = pointer_move_frame [of 500 "dragExample MoveSub 400", THEN conjunct2, rule_format]
  have "subtitles (handlePointerMove 500 (dragExample MoveSub 400)) ! 1 = captionB"
    using f [of 1] by (simp add: l d captionB_def)
  moreover have "sub_id (subtitles (handlePointerMove 500 (dragExample MoveSub 400)) ! 0) = ''a''"
    using f [of 0] by (simp add: l captionA_def)
  moreover have "sub_text (subtitles (handlePointerMove 500 (dragExample MoveSub 400)) ! 0) = ''hi''"
    using f [of 0] by (simp add: l captionA_def)
  ultimately show ?thesis by simp
qed

section \<open>Bounds after a drag\<close>

lemma move_bounds:
  assumes "c' = dragSub MoveSub (Some (sub_id c)) os oe dt c"
  shows "0 \<le> sub_start c' \<and> sub_start c' + 0.1 \<le> sub_end c'"
  using assms by (simp add: dragSub_def Let_def)

lemma resize_right_bounds:
  assumes "c' = dragSub ResizeRight (Some (sub_id c)) (sub_start c) oe dt c"
  shows "sub_start c' = sub_start c \<and> sub_start c' + 0.2 \<le> sub_end c'"
  using assms by (simp add: dragSub_def Let_def)

lemma resize_left_bounds:
  assumes "c' = dragSub ResizeLeft (Some (sub_id c)) os (sub_end c) dt c"
  shows "sub_end c' = sub_end c \<and> sub_start c' + 0.2 \<le> sub_end c'
         \<and> (0.2 \<le> sub_end c \<longrightarrow> 0 \<le> sub_start c')"
  using assms by (auto simp add: dragSub_def Let_def)

text \<open>
  C3: the start of a caption does not stay non-negative under every sequence of drags.
  A caption from 0.5 to 2.5 (zoom 50, canvas 800 wide, playback at 1.5) is moved 150
  pixels to the left, which clamps it to the interval from 0 to 0.1; its left handle is
  then pressed and dragged. The resize caps the start at the end minus 0.2, and the
  caption ends up running from -0.1 to 0.1.
\<close>

theorem resize_left_start_negative:
  "map_sum id subtitles
     (runEvents [PointerDown 400, PointerMove 250, PointerUp,
                 PointerDown 325, PointerMove 375, PointerUp]
        (initialEditor [freshCaption] 50 None 800 1.5))
   = Inr [freshCaption\<lparr>sub_start := - 0.1, sub_end := 0.1\<rparr>]"
  by (simp add: initialEditor_def freshCaption_def handlePointerDown_def
      handlePointerMove_def handlePointerUp_def xToTime_def truthy_def dragSub_def Let_def)

theorem resize_left_start_negative_witness:
  "map_sum id (map sub_start \<circ> subtitles)
     (runEvents [PointerDown 400, PointerMove 250, PointerUp,
                 PointerDown 325, PointerMove 375, PointerUp]
        (initialEditor [freshCaption] 50 None 800 1.5))
   = Inr [- 0.1]"
proof -
  have "map_sum id (map sub_start \<circ> subtitles) v = map_sum id (map sub_start) (map_sum id subtitles v)"
    for v :: "js_error + editor"
    by (cases v) simp_all
  then show ?thesis
    using resize_left_start_negative by (simp add: freshCaption_def)
qed

section \<open>Pointer-down never fails\<close>

lemma hitTest_hit_mem:
  "hitTest t margin sel xs = (Some k, ty) \<Longrightarrow> \<exists>c \<in> set xs. sub_id c = k"
  by (induction xs) (auto split: if_splits)

lemma handlePointerDown_no_error: "\<exists>s'. handlePointerDown x s = Inr s'"
proof -
  let ?t = "xToTime x (videoCurrentTime s) (canvasWidth s) (zoomLevel s)"
  obtain hid ty where h: "hitTest ?t (10 / zoomLevel s) (selectedSubId s) (rev (subtitles s))
                            = (hid, ty)"
    by (cases "hitTest ?t (10 / zoomLevel s) (selectedSubId s) (rev (subtitles s))")
  show ?thesis
  proof (cases "truthy hid \<and> ty \<noteq> HitNone")
    case False
    then show ?thesis
      using h by (auto simp add: handlePointerDown_def Let_def)
  next
    case True
    then obtain k where k: "hid = Some k" by (cases hid) (simp_all add: truthy_def)
    with h hitTest_hit_mem have "\<exists>c \<in> set (subtitles s). sub_id c = k"
      by fastforce
    then obtain c where "find (\<lambda>d. Some (sub_id d) = Some k) (subtitles s) = Some c"
      by (cases "find (\<lambda>d. Some (sub_id d) = Some k) (subtitles s)")
        (auto simp add: find_None_iff)
    then show ?thesis
      using h k True by (auto simp add: handlePointerDown_def Let_def)
  qed
qed

lemma pointer_down_snapshot:
  assumes "hasCanvas s" "hasVideo s"
    and "handlePointerDown x s = Inr s'" "dragMode s' \<noteq> Scrub"
  shows "\<exists>c. find (\<lambda>d. Some (sub_id d) = dragTargetId s') (subtitles s) = Some c
             \<and> dragOriginalStart s' = sub_start c \<and> dragOriginalEnd s' = sub_end c
             \<and> selectedSubId s' = dragTargetId s' \<and> dragStartX s' = x"
proof -
  let ?t = "xToTime x (videoCurrentTime s) (canvasWidth s) (zoomLevel s)"
  obtain hid ty where h: "hitTest ?t (10 / zoomLevel s) (selectedSubId s) (rev (subtitles s))
                            = (hid, ty)"
    by (cases "hitTest ?t (10 / zoomLevel s) (selectedSubId s) (rev (subtitles s))")
  show ?thesis
  proof (cases "truthy hid \<and> ty \<noteq> HitNone")
    case False
    then show ?thesis
      using h assms by (auto simp add: handlePointerDown_def Let_def)
  next
    case True
    then show ?thesis
      using h assms
      by (auto simp add: handlePointerDown_def Let_def split: option.splits)
  qed
qed

section \<open>Hit test\<close>

lemma hitTest_no_handle:
  assumes "0 < margin"
    and "\<forall>c \<in> set xs. Some (sub_id c) = sel \<longrightarrow> \<not> onHandle t margin c"
  shows "hitTest t margin sel xs =
           (case find (inBody t) xs of
              None \<Rightarrow> (None, HitNone)
            | Some c \<Rightarrow> (Some (sub_id c), HitBody))"
  using assms
proof (induction xs)
  case Nil
  then show ?case by simp
next
  case (Cons c xs)
  then show ?case
    by (auto simp add: inBody_def onHandle_def inExpanded_def)
qed

lemma find_Some_mem: "find P xs = Some x \<Longrightarrow> x \<in> set xs"
  by (induction xs) (auto split: if_splits)

lemma find_by_id_in_list:
  assumes "c \<in> set xs"
  shows "\<exists>c'. find (\<lambda>d. Some (sub_id d) = Some (sub_id c)) xs = Some c'"
  using assms by (cases "find (\<lambda>d. Some (sub_id d) = Some (sub_id c)) xs")
    (auto simp add: find_None_iff)

text \<open>
  C6 as stated fails: a pointer inside the handle margin of a caption but outside its
  interval does not start a move. With one unselected caption from 10 to 12 at zoom 50
  (margin 0.2), a press at time 9.9 lies in the expanded interval and starts a scrub with
  no target.
\<close>

theorem pointer_down_counterexample:
  "sub_start captionA - 10 / 50 \<le> xToTime 345 11 800 50
   \<and> xToTime 345 11 800 50 \<le> sub_end captionA + 10 / 50
   \<and> map_sum id dragMode (handlePointerDown 345 (initialEditor [captionA] 50 None 800 11))
       = Inr Scrub
   \<and> map_sum id dragTargetId (handlePointerDown 345 (initialEditor [captionA] 50 None 800 11))
       = Inr None
   \<and> map_sum id selectedSubId (handlePointerDown 345 (initialEditor [captionA] 50 None 800 11))
       = Inr None"
  by (simp add: handlePointerDown_def initialEditor_def captionA_def xToTime_def truthy_def
      Let_def)

text \<open>
  C6 (amended): on pointer-down with positive zoom and non-empty caption ids, when no
  resize handle of the selected caption is hit, a pointer whose time lies within the
  interval from start to end of some caption (the interval itself, not expanded by the
  handle margin) starts a move of the last such caption in list order and selects it; a
  pointer whose time lies in no caption's interval starts a scrub and clears the
  selection.
\<close>

theorem pointer_down_body_or_scrub:
  assumes "hasCanvas s" "hasVideo s" "0 < zoomLevel s"
    and "\<forall>c \<in> set (subtitles s). sub_id c \<noteq> []"
    and "selectedSubId s \<noteq> Some []"
    and "t = xToTime x (videoCurrentTime s) (canvasWidth s) (zoomLevel s)"
    and "\<forall>c \<in> set (subtitles s).
           Some (sub_id c) = selectedSubId s \<longrightarrow> \<not> onHandle t (10 / zoomLevel s) c"
  shows "\<exists>s'. handlePointerDown x s = Inr s' \<and> isDragging s' \<and>
           (case find (inBody t) (rev (subtitles s)) of
              Some c \<Rightarrow> dragMode s' = MoveSub \<and> dragTargetId s' = Some (sub_id c)
                          \<and> selectedSubId s' = Some (sub_id c)
            | None \<Rightarrow> dragMode s' = Scrub \<and> selectedSubId s' = None
                          \<and> dragTargetId s' = dragTargetId s)"
proof -
  have m: "0 < 10 / zoomLevel s" using assms(3) by simp
  have nh: "\<forall>c \<in> set (rev (subtitles s)).
           Some (sub_id c) = selectedSubId s \<longrightarrow> \<not> onHandle t (10 / zoomLevel s) c"
    using assms(7) by simp
  note ht = hitTest_no_handle [OF m nh]
  show ?thesis
  proof (cases "find (inBody t) (rev (subtitles s))")
    case None
    with ht have h: "hitTest t (10 / zoomLevel s) (selectedSubId s) (rev (subtitles s))
                      = (None, HitNone)" by simp
    have "selectedSubId s = None \<or> truthy (selectedSubId s)"
      using assms(5) by (cases "selectedSubId s") (simp_all add: truthy_def)
    then show ?thesis
      using assms(1,2) None h
      by (auto simp add: handlePointerDown_def Let_def assms(6) [symmetric] truthy_def)
  next
    case (Some c)
    with ht have h: "hitTest t (10 / zoomLevel s) (selectedSubId s) (rev (subtitles s))
                      = (Some (sub_id c), HitBody)" by simp
    from find_Some_mem [OF Some] have cin: "c \<in> set (subtitles s)"
      by simp
    then obtain c' where f: "find (\<lambda>d. Some (sub_id d) = Some (sub_id c)) (subtitles s) = Some c'"
      using find_by_id_in_list by blast
    have ne: "sub_id c \<noteq> []" using assms(4) cin by blast
    show ?thesis
      using assms(1,2) Some h f ne
      by (simp add: handlePointerDown_def Let_def assms(6) [symmetric] truthy_def)
  qed
qed

theorem pointer_down_body_or_scrub_witness:
  "(\<exists>s'. handlePointerDown 400 (initialEditor [captionA, captionB] 50 None 800 11) = Inr s'
         \<and> dragMode s' = MoveSub \<and> selectedSubId s' = Some ''a'')
   \<and> (\<exists>s'. handlePointerDown 345 (initialEditor [captionA, captionB] 50 None 800 11) = Inr s'
         \<and> dragMode s' = Scrub \<and> selectedSubId s' = None)"
proof
  let ?s = "initialEditor [captionA, captionB] 50 None 800 11"
  have h: "hasCanvas ?s" "hasVideo ?s" "0 < zoomLevel ?s"
    "\<forall>c \<in> set (subtitles ?s). sub_id c \<noteq> []" "selectedSubId ?s \<noteq> Some []"
    by (simp_all add: initialEditor_def captionA_def captionB_def)
  have t1: "(11::real) = xToTime 400 (videoCurrentTime ?s) (canvasWidth ?s) (zoomLevel ?s)"
    by (simp add: initialEditor_def xToTime_def)
  have n1: "\<forall>c \<in> set (subtitles ?s).
           Some (sub_id c) = selectedSubId ?s \<longrightarrow> \<not> onHandle 11 (10 / zoomLevel ?s) c"
    by (simp add: initialEditor_def)
  have f1: "find (inBody 11) (rev (subtitles ?s)) = Some captionA"
    by (simp add: initialEditor_def inBody_def captionA_def captionB_def)
  from pointer_down_body_or_scrub [OF h t1 n1, unfolded f1]
  show "\<exists>s'. handlePointerDown 400 ?s = Inr s' \<and> dragMode s' = MoveSub
              \<and> selectedSubId s' = Some ''a''"
    by (auto simp add: captionA_def)
next
  let ?s = "initialEditor [captionA, captionB] 50 None 800 11"
  have h: "hasCanvas ?s" "hasVideo ?s" "0 < zoomLevel ?s"
    "\<forall>c \<in> set (subtitles ?s). sub_id c \<noteq> []" "selectedSubId ?s \<noteq> Some []"
    by (simp_all add: initialEditor_def captionA_def captionB_def)
  have t2: "(9.9::real) = xToTime 345 (videoCurrentTime ?s) (canvasWidth ?s) (zoomLevel ?s)"
    by (simp add: initialEditor_def xToTime_def)
  have n2: "\<forall>c \<in> set (subtitles ?s).
           Some (sub_id c) = selectedSubId ?s \<longrightarrow> \<not> onHandle 9.9 (10 / zoomLevel ?s) c"
    by (simp add: initialEditor_def)
  have f2: "find (inBody 9.9) (rev (subtitles ?s)) = None"
    by (simp add: initialEditor_def inBody_def captionA_def captionB_def)
  from pointer_down_body_or_scrub [OF h t2 n2, unfolded f2]
  show "\<exists>s'. handlePointerDown 345 ?s = Inr s' \<and> dragMode s' = Scrub
              \<and> selectedSubId s' = None"
    by auto
qed

section \<open>Export\<close>

lemma find_first_index:
  "find P xs = Some x \<longleftrightarrow> (\<exists>i < length xs. xs ! i = x \<and> P x \<and> (\<forall>j < i. \<not> P (xs ! j)))"
  by (auto simp add: find_Some_iff)

text \<open>
  C7: on a frame callback that does not find the video ended, the compositor draws
  caption text exactly when some caption's closed interval from start to end contains the
  playback time; the text drawn is that of the first such caption in list order, and no
  other text is drawn. For the single caption from 2 to 4 the text is drawn exactly on
  the frames with time between 2 and 4 inclusive.
\<close>

theorem compositor_draws_active_caption:
  assumes "\<not> videoEnded"
    and "ops = frameOps (renderFrame videoEnded videoIsPaused t duration canvasW canvasH
                 currentStyle lineWidth0 subs)"
  shows "((\<exists>txt x y. FillText txt x y \<in> set ops)
            \<longleftrightarrow> (\<exists>c \<in> set subs. sub_start c \<le> t \<and> t \<le> sub_end c))
       \<and> (\<forall>i < length subs.
             sub_start (subs ! i) \<le> t \<and> t \<le> sub_end (subs ! i)
             \<and> (\<forall>j < i. \<not> (sub_start (subs ! j) \<le> t \<and> t \<le> sub_end (subs ! j)))
             \<longrightarrow> (\<exists>x y. FillText (sub_text (subs ! i)) x y \<in> set ops)
                 \<and> (\<forall>op \<in> set ops. \<forall>txt. drawnText op = Some txt \<longrightarrow> txt = sub_text (subs ! i)))
       \<and> (subs = [\<lparr>sub_id = k, sub_start = 2, sub_end = 4, sub_text = txt0\<rparr>]
            \<longrightarrow> ((\<exists>txt x y. FillText txt x y \<in> set ops) \<longleftrightarrow> 2 \<le> t \<and> t \<le> 4))"
proof -
  let ?P = "\<lambda>s. t \<ge> sub_start s \<and> t \<le> sub_end s"
  have none: "find ?P subs = None \<Longrightarrow> ops = [DrawImage 0 0 canvasW canvasH]"
    using assms by (simp add: renderFrame_def)
  have some': "find ?P subs = Some c \<Longrightarrow>
                FillText (sub_text c) (canvasW / 2)
                  (canvasH - real_of_int \<lfloor>canvasH * (fontSize currentStyle / 100)\<rfloor> * 1.5) \<in> set ops
                \<and> (\<forall>op \<in> set ops. \<forall>txt. drawnText op = Some txt \<longrightarrow> txt = sub_text c)" for c
    using assms by (auto simp add: renderFrame_def Let_def)
  have some: "find ?P subs = Some c \<Longrightarrow>
                (\<exists>x y. FillText (sub_text c) x y \<in> set ops)
                \<and> (\<forall>op \<in> set ops. \<forall>txt. drawnText op = Some txt \<longrightarrow> txt = sub_text c)" for c
    using some' [of c] by blast
  have a: "(\<exists>txt x y. FillText txt x y \<in> set ops)
            \<longleftrightarrow> (\<exists>c \<in> set subs. sub_start c \<le> t \<and> t \<le> sub_end c)"
  proof (cases "find ?P subs")
    case None
    then have "\<not> (\<exists>c \<in> set subs. sub_start c \<le> t \<and> t \<le> sub_end c)"
      by (auto simp add: find_None_iff)
    with none [OF None] show ?thesis by simp
  next
    case (Some c)
    then have "c \<in> set subs \<and> ?P c"
      by (auto simp add: find_Some_iff)
    with some [OF Some] show ?thesis by blast
  qed
  have b: "\<forall>i < length subs.
             sub_start (subs ! i) \<le> t \<and> t \<le> sub_end (subs ! i)
             \<and> (\<forall>j < i. \<not> (sub_start (subs ! j) \<le> t \<and> t \<le> sub_end (subs ! j)))
             \<longrightarrow> (\<exists>x y. FillText (sub_text (subs ! i)) x y \<in> set ops)
                 \<and> (\<forall>op \<in> set ops. \<forall>txt. drawnText op = Some txt \<longrightarrow> txt = sub_text (subs ! i))"
  proof (intro allI impI)
    fix i
    assume i: "i < length subs"
      and f: "sub_start (subs ! i) \<le> t \<and> t \<le> sub_end (subs ! i)
             \<and> (\<forall>j < i. \<not> (sub_start (subs ! j) \<le> t \<and> t \<le> sub_end (subs ! j)))"
    then have "find ?P subs = Some (subs ! i)"
      unfolding find_first_index by blast
    from some [OF this]
    show "(\<exists>x y. FillText (sub_text (subs ! i)) x y \<in> set ops)
                 \<and> (\<forall>op \<in> set ops. \<forall>txt. drawnText op = Some txt \<longrightarrow> txt = sub_text (subs ! i))" .
  qed
  have c: "subs = [\<lparr>sub_id = k, sub_start = 2, sub_end = 4, sub_text = txt0\<rparr>]
            \<longrightarrow> ((\<exists>txt x y. FillText txt x y \<in> set ops) \<longleftrightarrow> 2 \<le> t \<and> t \<le> 4)"
    using a by simp
  from a b c show ?thesis by blast
qed

theorem compositor_draws_active_caption_witness:
  "(\<exists>txt x y. FillText txt x y \<in> set (frameOps
       (renderFrame False False 3 10 640 360 defaultStyle 1 [exportCaption])))
   \<and> \<not> (\<exists>txt x y. FillText txt x y \<in> set (frameOps
       (renderFrame False False 5 10 640 360 defaultStyle 1 [exportCaption])))"
proof -
  have e: "[exportCaption] = [\<lparr>sub_id = ''x'', sub_start = 2, sub_end = 4, sub_text = ''Hello''\<rparr>]"
    by (simp add: exportCaption_def)
  have n: "\<not> False" by simp
  note w = compositor_draws_active_caption [OF n refl, THEN conjunct2, THEN conjunct2,
      rule_format, OF e]
  have "(2::real) \<le> 3 \<and> (3::real) \<le> 4" and "\<not> ((2::real) \<le> 5 \<and> (5::real) \<le> 4)"
    by simp_all
  then show ?thesis
    using w [of False 3 10 640 360 defaultStyle 1] w [of False 5 10 640 360 defaultStyle 1]
    by blast
qed

lemma selectMimeType_find:
  "selectMimeType isTypeSupported types =
     (case find isTypeSupported types of None \<Rightarrow> [] | Some ty \<Rightarrow> ty)"
  by (induction types) simp_all

lemma mimeTypes_nonempty: "ty \<in> set mimeTypes \<Longrightarrow> ty \<noteq> []"
  by (auto simp add: mimeTypes_def)

lemma startRendering_selected:
  assumes "exportVideoPresent st" "exportCanvasPresent st" "videoSrcPresent st"
    "contextPresent st"
    and "find isTypeSupported mimeTypes = Some ty"
  shows "recorderMimeType (startRendering isTypeSupported st) = Some ty
         \<and> renderStatus (startRendering isTypeSupported st) = Rendering
         \<and> alerts (startRendering isTypeSupported st) = alerts st"
proof -
  have "ty \<in> set mimeTypes" using assms(5) by (auto simp add: find_Some_iff)
  then have "ty \<noteq> []" by (rule mimeTypes_nonempty)
  then show ?thesis
    using assms by (simp add: startRendering_def selectMimeType_find Let_def)
qed

lemma startRendering_unsupported:
  assumes "exportVideoPresent st" "exportCanvasPresent st" "videoSrcPresent st"
    "contextPresent st"
    and "find isTypeSupported mimeTypes = None"
  shows "renderStatus (startRendering isTypeSupported st) = Idle
         \<and> alerts (startRendering isTypeSupported st) = alerts st @ [unsupportedMessage]
         \<and> recorderMimeType (startRendering isTypeSupported st) = recorderMimeType st"
  using assms by (simp add: startRendering_def selectMimeType_find Let_def)

text \<open>
  C8: the probing loop returns the first entry of any preference list that the
  \<open>supported\<close> predicate accepts. With the controller's own list, \<open>startRendering\<close>
  starts the recorder with that entry; if the predicate accepts no entry, it shows the
  unsupported-format message, starts no recorder and leaves the status idle.
\<close>

theorem codec_negotiation:
  assumes "exportVideoPresent st" "exportCanvasPresent st" "videoSrcPresent st"
    "contextPresent st"
  shows "(\<forall>i < length types.
            isTypeSupported (types ! i) \<and> (\<forall>j < i. \<not> isTypeSupported (types ! j))
            \<longrightarrow> selectMimeType isTypeSupported types = types ! i)
       \<and> (\<forall>i < length mimeTypes.
            isTypeSupported (mimeTypes ! i) \<and> (\<forall>j < i. \<not> isTypeSupported (mimeTypes ! j))
            \<longrightarrow> recorderMimeType (startRendering isTypeSupported st) = Some (mimeTypes ! i)
                \<and> renderStatus (startRendering isTypeSupported st) = Rendering
                \<and> alerts (startRendering isTypeSupported st) = alerts st)
       \<and> ((\<forall>ty \<in> set mimeTypes. \<not> isTypeSupported ty)
            \<longrightarrow> renderStatus (startRendering isTypeSupported st) = Idle
                \<and> alerts (startRendering isTypeSupported st) = alerts st @ [unsupportedMessage]
                \<and> recorderMimeType (startRendering isTypeSupported st) = recorderMimeType st)"
proof (intro conjI allI impI)
  fix i
  assume "i < length types"
    and "isTypeSupported (types ! i) \<and> (\<forall>j < i. \<not> isTypeSupported (types ! j))"
  then have "find isTypeSupported types = Some (types ! i)"
    unfolding find_first_index by blast
  then show "selectMimeType isTypeSupported types = types ! i"
    by (simp add: selectMimeType_find)
next
  fix i
  assume "i < length mimeTypes"
    and "isTypeSupported (mimeTypes ! i) \<and> (\<forall>j < i. \<not> isTypeSupported (mimeTypes ! j))"
  then have f: "find isTypeSupported mimeTypes = Some (mimeTypes ! i)"
    unfolding find_first_index by blast
  from startRendering_selected [OF assms f]
  show "recorderMimeType (startRendering isTypeSupported st) = Some (mimeTypes ! i)"
    and "renderStatus (startRendering isTypeSupported st) = Rendering"
    and "alerts (startRendering isTypeSupported st) = alerts st"
    by simp_all
next
  assume "\<forall>ty \<in> set mimeTypes. \<not> isTypeSupported ty"
  then have f: "find isTypeSupported mimeTypes = None"
    by (simp add: find_None_iff)
  from startRendering_unsupported [OF assms f]
  show "renderStatus (startRendering isTypeSupported st) = Idle"
    and "alerts (startRendering isTypeSupported st) = alerts st @ [unsupportedMessage]"
    and "recorderMimeType (startRendering isTypeSupported st) = recorderMimeType st"
    by simp_all
qed

theorem codec_negotiation_witness:
  "recorderMimeType (startRendering (\<lambda>ty. includesStr ty ''webm'') exporter0)
     = Some ''video/webm;codecs=h264''
   \<and> renderStatus (startRendering (\<lambda>ty. False) exporter0) = Idle
   \<and> alerts (startRendering (\<lambda>ty. False) exporter0) = [unsupportedMessage]
   \<and> recorderMimeType (startRendering (\<lambda>ty. False) exporter0) = None"
proof -
  have p: "exportVideoPresent exporter0" "exportCanvasPresent exporter0"
    "videoSrcPresent exporter0" "contextPresent exporter0"
    by (simp_all add: exporter0_def)
  have l: "(3::nat) < length mimeTypes" by (simp add: mimeTypes_def)
  have s: "(\<lambda>ty. includesStr ty ''webm'') (mimeTypes ! 3)
           \<and> (\<forall>j < 3. \<not> (\<lambda>ty. includesStr ty ''webm'') (mimeTypes ! j))"
    by (simp add: mimeTypes_def less_Suc_eq numeral_3_eq_3)
  have n: "\<forall>ty \<in> set mimeTypes. \<not> (\<lambda>ty. False) ty" by simp
  note c = codec_negotiation [OF p]
  have "recorderMimeType (startRendering (\<lambda>ty. includesStr ty ''webm'') exporter0)
          = Some (mimeTypes ! 3)"
    using c [of "[]" "\<lambda>ty. includesStr ty ''webm''", THEN conjunct2, THEN conjunct1,
             rule_format, OF l s] by simp
  moreover have "mimeTypes ! 3 = ''video/webm;codecs=h264''"
    by (simp add: mimeTypes_def)
  moreover have "renderStatus (startRendering (\<lambda>ty. False) exporter0) = Idle
      \<and> alerts (startRendering (\<lambda>ty. False) exporter0) = alerts exporter0 @ [unsupportedMessage]
      \<and> recorderMimeType (startRendering (\<lambda>ty. False) exporter0) = recorderMimeType exporter0"
    using c [of "[]" "\<lambda>ty. False", THEN conjunct2, THEN conjunct2, THEN mp, OF n] .
  ultimately show ?thesis by (simp add: exporter0_def)
qed

section \<open>Caption file format\<close>













section \<open>Waveform buckets\<close>

lemma bucketLoop_mem:
  "(i, out) \<in> set (bucketLoop sampleRate channelData currentTime width height zoom lastIndex j)
   \<Longrightarrow> out = drawBucket sampleRate channelData currentTime width height zoom i"
proof (induction sampleRate channelData currentTime width height zoom lastIndex j
       rule: bucketLoop.induct)
  case (1 sampleRate channelData currentTime width height zoom lastIndex j)
  show ?case
  proof (cases "j \<le> lastIndex")
    case False
    with "1.prems" show ?thesis by simp
  next
    case True
    show ?thesis
    proof (cases "drawBucket sampleRate channelData currentTime width height zoom j")
      case BucketSkip
      with True "1.prems" "1.IH"(1) show ?thesis by simp
    next
      case BucketBreak
      with True "1.prems" show ?thesis by simp
    next
      case (BucketPeak mn mx r)
      with True "1.prems" "1.IH"(2) show ?thesis by auto
    qed
  qed
qed

lemma drawBucket_peaks:
  assumes "drawBucket sampleRate channelData currentTime width height zoom i = BucketPeak mn mx r"
  shows "fst (bucketPeaks sampleRate channelData zoom i) = mn
       \<and> fst (snd (bucketPeaks sampleRate channelData zoom i)) = mx
       \<and> map_option (\<lambda>(x, y, w, h). (y, h)) r =
           (if snd (snd (bucketPeaks sampleRate channelData zoom i)) \<and> mx \<ge> mn
            then Some (if mx - mn < 0.005 then (\<lfloor>height / 2\<rfloor>, 1)
                       else (\<lfloor>height / 2 + mn * (height / 2) * 0.9\<rfloor>,
                             max 1 (\<lceil>height / 2 + mx * (height / 2) * 0.9\<rceil>
                                    - \<lfloor>height / 2 + mn * (height / 2) * 0.9\<rfloor>)))
            else None)"
proof -
  define step where "step = \<lceil>sampleRate / zoom\<rceil>"
  define safeStart where "safeStart = max 0 (i * step)"
  define safeEnd where "safeEnd = min (int (length channelData)) (i * step + step)"
  define drawX where
    "drawX = \<lfloor>timeToX (real_of_int (i * step) / sampleRate) currentTime width zoom\<rfloor>"
  define drawW where
    "drawW = max 1 (\<lceil>timeToX (real_of_int (i * step + step) / sampleRate) currentTime width zoom\<rceil>
                    - drawX)"
  define P where
    "P = scanPeak channelData safeEnd (max 1 ((safeEnd - safeStart) div 40)) safeStart
           (1, - 1, False)"
  obtain a b hd where P: "P = (a, b, hd)" by (cases P)
  have bp: "bucketPeaks sampleRate channelData zoom i = (a, b, hd)"
    unfolding bucketPeaks_def Let_def
    using P by (simp only: step_def [symmetric] safeStart_def [symmetric]
        safeEnd_def [symmetric] P_def [symmetric])
  have eq: "drawBucket sampleRate channelData currentTime width height zoom i =
     (if i * step + step < 0 \<or> i * step \<ge> int (length channelData) then BucketSkip
      else if real_of_int drawX > width then BucketBreak
      else if drawX + drawW < 0 then BucketSkip
      else (case P of (mn, mx, hasData) \<Rightarrow>
              if hasData \<and> mx \<ge> mn
              then (if mx - mn < 0.005
                    then BucketPeak mn mx (Some (drawX, \<lfloor>height / 2\<rfloor>, drawW, 1))
                    else BucketPeak mn mx
                           (Some (drawX, \<lfloor>height / 2 + mn * (height / 2) * 0.9\<rfloor>, drawW,
                                  max 1 (\<lceil>height / 2 + mx * (height / 2) * 0.9\<rceil>
                                         - \<lfloor>height / 2 + mn * (height / 2) * 0.9\<rfloor>))))
              else BucketPeak mn mx None))"
    unfolding drawBucket_def Let_def P_def drawW_def drawX_def safeEnd_def safeStart_def step_def
    by (rule refl)
  have "a = mn \<and> b = mx \<and> map_option (\<lambda>(x, y, w, h). (y, h)) r =
           (if hd \<and> b \<ge> a
            then Some (if b - a < 0.005 then (\<lfloor>height / 2\<rfloor>, 1)
                       else (\<lfloor>height / 2 + a * (height / 2) * 0.9\<rfloor>,
                             max 1 (\<lceil>height / 2 + b * (height / 2) * 0.9\<rceil>
                                    - \<lfloor>height / 2 + a * (height / 2) * 0.9\<rfloor>)))
            else None)"
    using assms unfolding eq P
    by (simp only: prod.case split: if_splits) auto
  then show ?thesis
    unfolding bp by simp
qed

text \<open>
  C4: at a fixed zoom, a bucket index sampled in the views of two playback times carries
  the same minimum and maximum in both: the pair is the result of the peak loop over the
  bucket's clamped sample range, which is fixed by the bucket index, the zoom, the sample
  rate and the samples. The vertical position and height of the bar drawn for it agree as
  well.
\<close>

theorem bucket_peaks_independent_of_center:
  assumes "0 < zoom"
    and "(i, BucketPeak mn mx r)
           \<in> set (drawWaveform sampleRate channelData centerTime width height zoom)"
    and "(i, BucketPeak mn' mx' r')
           \<in> set (drawWaveform sampleRate channelData centerTime' width height zoom)"
  shows "mn = mn' \<and> mx = mx'
       \<and> (mn, mx) = (fst (bucketPeaks sampleRate channelData zoom i),
                      fst (snd (bucketPeaks sampleRate channelData zoom i)))
       \<and> map_option (\<lambda>(x, y, w, h). (y, h)) r = map_option (\<lambda>(x, y, w, h). (y, h)) r'"
proof -
  have a: "drawBucket sampleRate channelData centerTime width height zoom i = BucketPeak mn mx r"
    using assms(2) unfolding drawWaveform_def Let_def by (rule bucketLoop_mem [symmetric])
  have b: "drawBucket sampleRate channelData centerTime' width height zoom i
             = BucketPeak mn' mx' r'"
    using assms(3) unfolding drawWaveform_def Let_def by (rule bucketLoop_mem [symmetric])
  from drawBucket_peaks [OF a] drawBucket_peaks [OF b]
  show ?thesis by simp
qed

lemma drawWaveform_example_1:
  "drawWaveform 4 sampleData 1 4 100 2 =
     [(- 1, BucketPeak 1 (- 1) None),
      (0, BucketPeak (- 0.5) 0.5 (Some (0, 27, 1, 46))),
      (1, BucketPeak 0.1 0.25 (Some (1, 54, 1, 8))),
      (2, BucketPeak (- 0.3) 0.9 (Some (2, 36, 1, 55))),
      (3, BucketPeak 0 0 (Some (3, 50, 1, 1)))]"
  by code_simp

lemma drawWaveform_example_2:
  "drawWaveform 4 sampleData 1.5 4 100 2 =
     [(0, BucketPeak (- 0.5) 0.5 (Some (- 1, 27, 1, 46))),
      (1, BucketPeak 0.1 0.25 (Some (0, 54, 1, 8))),
      (2, BucketPeak (- 0.3) 0.9 (Some (1, 36, 1, 55))),
      (3, BucketPeak 0 0 (Some (2, 50, 1, 1)))]"
  by code_simp

theorem bucket_peaks_independent_of_center_witness:
  "(2, BucketPeak (- 0.3) 0.9 (Some (2, 36, 1, 55))) \<in> set (drawWaveform 4 sampleData 1 4 100 2)
   \<and> (2, BucketPeak (- 0.3) 0.9 (Some (1, 36, 1, 55)))
        \<in> set (drawWaveform 4 sampleData 1.5 4 100 2)
   \<and> (- 0.3, 0.9) = (fst (bucketPeaks 4 sampleData 2 2), fst (snd (bucketPeaks 4 sampleData 2 2)))"
proof -
  have z: "(0::real) < 2" by simp
  have m1: "(2, BucketPeak (- 0.3) 0.9 (Some (2, 36, 1, 55)))
              \<in> set (drawWaveform 4 sampleData 1 4 100 2)"
    unfolding drawWaveform_example_1 by simp
  have m2: "(2, BucketPeak (- 0.3) 0.9 (Some (1, 36, 1, 55)))
              \<in> set (drawWaveform 4 sampleData 1.5 4 100 2)"
    unfolding drawWaveform_example_2 by simp
  from bucket_peaks_independent_of_center [OF z m1 m2] m1 m2
  show ?thesis by blast
qed

end
